theory Spec2Isabelle
  imports Main "HOL-Library.Word"
begin

section \<open>Bytes, strings and the codecs the module calls\<close>

text \<open>
  The module \<^verbatim>\<open>utils/common_utils.py\<close> reads files as text and as JSON, trying a fixed
  list of encodings. Its three functions are short; what they do is decided by the
  codecs and by the text layer of \<^verbatim>\<open>open\<close>. A \<^verbatim>\<open>bytes\<close> object is a list of 8-bit
  words, a Python \<^verbatim>\<open>str\<close> is the list of its code points, and a decoder returns
  \<open>None\<close> where Python raises \<^verbatim>\<open>UnicodeDecodeError\<close>.
\<close>

type_synonym byte = "8 word"

type_synonym str = "nat list"

text \<open>The \<^verbatim>\<open>errors\<close> argument of \<^verbatim>\<open>bytes.decode\<close> and \<^verbatim>\<open>open\<close>.\<close>

datatype errors = Strict | Replace

text \<open>
  The error handler: \<^verbatim>\<open>strict\<close> raises, \<^verbatim>\<open>replace\<close> puts U+FFFD for the offending
  bytes and goes on with what follows them.
\<close>

fun on_error :: "errors \<Rightarrow> str option \<Rightarrow> str option" where
  "on_error Strict rest = None"
| "on_error Replace rest = map_option ((#) 0xFFFD) rest"

definition emit :: "nat \<Rightarrow> str option \<Rightarrow> str option" where
  "emit c rest = map_option ((#) c) rest"

definition is_continuation_byte :: "byte \<Rightarrow> bool" where
  "is_continuation_byte ch \<longleftrightarrow> 0x80 \<le> ch \<and> ch < 0xC0"

text \<open>
  The UTF-8 decoder of CPython, one lead byte at a time. \<open>ch\<close> is the lead byte and
  \<open>ch2\<close>, \<open>ch3\<close>, \<open>ch4\<close> the bytes after it. An invalid start byte and a bad second
  byte make an error of one byte, a bad third byte an error of two, a bad fourth byte
  an error of three; a sequence cut off by the end of the data is one error up to that
  end. Overlong forms (\<open>C0\<close>, \<open>C1\<close>, \<open>E0 80..9F\<close>, \<open>F0 80..8F\<close>), surrogates
  (\<open>ED A0..BF\<close>) and code points above U+10FFFF (\<open>F4 90..\<close>, \<open>F5..FF\<close>) are invalid.
\<close>

fun utf8_decode :: "errors \<Rightarrow> byte list \<Rightarrow> str option" where
  "utf8_decode h [] = Some []"
| "utf8_decode h (ch # s) =
    (if ch < 0x80 then emit (unat ch) (utf8_decode h s)
     else if ch < 0xC2 then on_error h (utf8_decode h s)
     else if ch < 0xE0 then
       (case s of
          [] \<Rightarrow> on_error h (Some [])
        | ch2 # s2 \<Rightarrow>
            if \<not> is_continuation_byte ch2 then on_error h (utf8_decode h s)
            else emit (unat ch * 2 ^ 6 + unat ch2 - (0xC0 * 2 ^ 6 + 0x80)) (utf8_decode h s2))
     else if ch < 0xF0 then
       (case s of
          [] \<Rightarrow> on_error h (Some [])
        | ch2 # s2 \<Rightarrow>
            if \<not> is_continuation_byte ch2 \<or> (if ch2 < 0xA0 then ch = 0xE0 else ch = 0xED)
            then on_error h (utf8_decode h s)
            else
              (case s2 of
                 [] \<Rightarrow> on_error h (Some [])
               | ch3 # s3 \<Rightarrow>
                   if \<not> is_continuation_byte ch3 then on_error h (utf8_decode h s2)
                   else emit (unat ch * 2 ^ 12 + unat ch2 * 2 ^ 6 + unat ch3
                                - (0xE0 * 2 ^ 12 + 0x80 * 2 ^ 6 + 0x80))
                          (utf8_decode h s3)))
     else if ch < 0xF5 then
       (case s of
          [] \<Rightarrow> on_error h (Some [])
        | ch2 # s2 \<Rightarrow>
            if \<not> is_continuation_byte ch2 \<or> (if ch2 < 0x90 then ch = 0xF0 else ch = 0xF4)
            then on_error h (utf8_decode h s)
            else
              (case s2 of
                 [] \<Rightarrow> on_error h (Some [])
               | ch3 # s3 \<Rightarrow>
                   if \<not> is_continuation_byte ch3 then on_error h (utf8_decode h s2)
                   else
                     (case s3 of
                        [] \<Rightarrow> on_error h (Some [])
                      | ch4 # s4 \<Rightarrow>
                          if \<not> is_continuation_byte ch4 then on_error h (utf8_decode h s3)
                          else emit (unat ch * 2 ^ 18 + unat ch2 * 2 ^ 12 + unat ch3 * 2 ^ 6
                                       + unat ch4
                                       - (0xF0 * 2 ^ 18 + 0x80 * 2 ^ 12 + 0x80 * 2 ^ 6 + 0x80))
                                 (utf8_decode h s4))))
     else on_error h (utf8_decode h s))"

text \<open>
  \<^verbatim>\<open>utf-8-sig\<close>: a leading byte-order mark \<open>EF BB BF\<close> is dropped, the rest is UTF-8.
\<close>

definition BOM_UTF8 :: "byte list" where
  "BOM_UTF8 = [0xEF, 0xBB, 0xBF]"

definition utf8_sig_decode :: "errors \<Rightarrow> byte list \<Rightarrow> str option" where
  "utf8_sig_decode h input =
     utf8_decode h (if take 3 input = BOM_UTF8 then drop 3 input else input)"

text \<open>
  \<^verbatim>\<open>cp1252\<close> is a charmap codec: every byte stands for one code point, the bytes
  \<open>80..9F\<close> through the table below, where five of them (\<open>81\<close>, \<open>8D\<close>, \<open>8F\<close>, \<open>90\<close>,
  \<open>9D\<close>) are undefined, and every other byte for itself.
\<close>

definition cp1252_high :: "nat option list" where
  "cp1252_high =
     [Some 0x20AC, None, Some 0x201A, Some 0x0192, Some 0x201E, Some 0x2026, Some 0x2020,
      Some 0x2021, Some 0x02C6, Some 0x2030, Some 0x0160, Some 0x2039, Some 0x0152, None,
      Some 0x017D, None, None, Some 0x2018, Some 0x2019, Some 0x201C, Some 0x201D,
      Some 0x2022, Some 0x2013, Some 0x2014, Some 0x02DC, Some 0x2122, Some 0x0161,
      Some 0x203A, Some 0x0153, None, Some 0x017E, Some 0x0178]"

definition cp1252_table :: "byte \<Rightarrow> nat option" where
  "cp1252_table b =
     (if 0x80 \<le> b \<and> b < 0xA0 then cp1252_high ! (unat b - 0x80) else Some (unat b))"

fun charmap_decode :: "errors \<Rightarrow> (byte \<Rightarrow> nat option) \<Rightarrow> byte list \<Rightarrow> str option" where
  "charmap_decode h table [] = Some []"
| "charmap_decode h table (b # bs) =
     (case table b of
        Some c \<Rightarrow> emit c (charmap_decode h table bs)
      | None \<Rightarrow> on_error h (charmap_decode h table bs))"

text \<open>\<^verbatim>\<open>latin-1\<close>: every byte is the code point of the same number; no byte is invalid.\<close>

definition latin_1_decode :: "errors \<Rightarrow> byte list \<Rightarrow> str option" where
  "latin_1_decode h bs = Some (map unat bs)"

datatype encoding = UTF_8 | UTF_8_SIG | CP1252 | LATIN_1

text \<open>\<^verbatim>\<open>data.decode(enc, errors)\<close>.\<close>

fun decode :: "byte list \<Rightarrow> encoding \<Rightarrow> errors \<Rightarrow> str option" where
  "decode data UTF_8 h = utf8_decode h data"
| "decode data UTF_8_SIG h = utf8_sig_decode h data"
| "decode data CP1252 h = charmap_decode h cp1252_table data"
| "decode data LATIN_1 h = latin_1_decode h data"

section \<open>The text layer of \<^verbatim>\<open>open\<close> and \<^verbatim>\<open>str.strip\<close>\<close>

text \<open>
  A file opened in text mode is decoded by the incremental decoder of its codec,
  called once with all the bytes and \<^verbatim>\<open>final=True\<close>. For three of the codecs that is
  \<^verbatim>\<open>bytes.decode\<close>. The incremental decoder of \<^verbatim>\<open>utf-8-sig\<close> differs on the files
  shorter than three bytes that are a prefix of the byte-order mark (the empty file,
  \<open>EF\<close> and \<open>EF BB\<close>): it waits for more bytes to decide whether a mark begins,
  returns the empty string, and raises nothing when the data ends there.
\<close>

definition text_decode :: "byte list \<Rightarrow> encoding \<Rightarrow> errors \<Rightarrow> str option" where
  "text_decode data enc h =
     (if enc = UTF_8_SIG \<and> length data < 3 \<and> take (length data) BOM_UTF8 = data
      then Some []
      else decode data enc h)"

text \<open>
  With the default \<^verbatim>\<open>newline=None\<close> the file reads with universal newlines: after
  decoding, every \<open>CR LF\<close> pair and every remaining \<open>CR\<close> becomes one \<open>LF\<close>.
\<close>

fun translate_newlines :: "str \<Rightarrow> str" where
  "translate_newlines [] = []"
| "translate_newlines [c] = [if c = 0x0D then 0x0A else c]"
| "translate_newlines (c # d # cs) =
     (if c = 0x0D \<and> d = 0x0A then 0x0A # translate_newlines cs
      else if c = 0x0D then 0x0A # translate_newlines (d # cs)
      else c # translate_newlines (d # cs))"

text \<open>The code points for which \<^verbatim>\<open>str.isspace\<close> holds.\<close>

definition isspace :: "nat \<Rightarrow> bool" where
  "isspace c \<longleftrightarrow>
     (0x09 \<le> c \<and> c \<le> 0x0D) \<or> (0x1C \<le> c \<and> c \<le> 0x20) \<or> c = 0x85 \<or> c = 0xA0 \<or>
     c = 0x1680 \<or> (0x2000 \<le> c \<and> c \<le> 0x200A) \<or> c = 0x2028 \<or> c = 0x2029 \<or>
     c = 0x202F \<or> c = 0x205F \<or> c = 0x3000"

text \<open>\<^verbatim>\<open>content.strip()\<close>: the whitespace at both ends is dropped.\<close>

definition strip :: "str \<Rightarrow> str" where
  "strip s = rev (dropWhile isspace (rev (dropWhile isspace s)))"

section \<open>Exceptions, the file system and \<^verbatim>\<open>json.loads\<close>\<close>

text \<open>
  What \<^verbatim>\<open>open\<close> raises for a path it cannot read is an \<^verbatim>\<open>OSError\<close>; a file system
  gives, for every path, that error or the bytes of the file. The file does not change
  during a call.
\<close>

datatype os_error = FileNotFoundError | PermissionError | IsADirectoryError

type_synonym filesystem = "string \<Rightarrow> os_error + byte list"

text \<open>
  The exceptions of the module. \<open>JSONDecodeError msg doc pos\<close> carries the three
  arguments of \<^verbatim>\<open>json.JSONDecodeError(msg, doc, pos)\<close>, which are its attributes of the
  same names (the line and column it also holds are computed from \<open>doc\<close> and \<open>pos\<close>).
\<close>

datatype exn =
    OSError os_error
  | UnicodeDecodeError
  | JSONDecodeError string str int
  | RecursionError
  | ValueError

text \<open>
  \<^verbatim>\<open>json.loads(s)\<close> for a \<^verbatim>\<open>str\<close>: a text that starts with U+FEFF is refused at once;
  every other text goes to the decoder. The decoder returns the value, or reports a
  message and a position, raised as a \<^verbatim>\<open>JSONDecodeError\<close> whose document is \<open>s\<close>; or
  it gives up on a text it cannot process within its limits: it raises
  \<^verbatim>\<open>RecursionError\<close> for a document nested deeper than the interpreter's recursion
  limit and \<^verbatim>\<open>ValueError\<close> for an integer of more digits than the conversion limit
  (4300). Neither is a \<^verbatim>\<open>JSONDecodeError\<close>. The decoder itself (the JSON grammar) is
  a parameter of the model, and so is the type \<open>'v\<close> of the values it builds.
\<close>

datatype 'v parsed =
    Parsed 'v
  | Syntax_error string int
  | Recursion_limit
  | Int_digits_limit

type_synonym 'v json_decoder = "str \<Rightarrow> 'v parsed"

definition json_loads :: "'v json_decoder \<Rightarrow> str \<Rightarrow> exn + 'v" where
  "json_loads decoder s =
     (if take 1 s = [0xFEFF]
      then Inl (JSONDecodeError ''Unexpected UTF-8 BOM (decode using utf-8-sig)'' s 0)
      else
        (case decoder s of
           Parsed v \<Rightarrow> Inr v
         | Syntax_error msg pos \<Rightarrow> Inl (JSONDecodeError msg s pos)
         | Recursion_limit \<Rightarrow> Inl RecursionError
         | Int_digits_limit \<Rightarrow> Inl ValueError))"

text \<open>
  \<^verbatim>\<open>with open(file_path, "r", encoding=enc, errors=h) as f: return f.read()\<close> and
  \<^verbatim>\<open>with open(file_path, "rb") as f: data = f.read()\<close>.
\<close>

definition open_read_text :: "filesystem \<Rightarrow> string \<Rightarrow> encoding \<Rightarrow> errors \<Rightarrow> exn + str" where
  "open_read_text fs file_path enc h =
     (case fs file_path of
        Inl e \<Rightarrow> Inl (OSError e)
      | Inr data \<Rightarrow>
          (case text_decode data enc h of
             None \<Rightarrow> Inl UnicodeDecodeError
           | Some s \<Rightarrow> Inr (translate_newlines s)))"

definition open_read_binary :: "filesystem \<Rightarrow> string \<Rightarrow> exn + byte list" where
  "open_read_binary fs file_path =
     (case fs file_path of Inl e \<Rightarrow> Inl (OSError e) | Inr data \<Rightarrow> Inr data)"

section \<open>The module\<close>

text \<open>
  The list \<^verbatim>\<open>encodings = ["utf-8", "utf-8-sig", "cp1252", "latin-1"]\<close> of both
  functions.
\<close>

definition encodings :: "encoding list" where
  "encodings = [UTF_8, UTF_8_SIG, CP1252, LATIN_1]"

subsection \<open>\<^verbatim>\<open>_read_text_with_fallback\<close> and \<^verbatim>\<open>read_file\<close>\<close>

text \<open>
  The \<^verbatim>\<open>for\<close> loop: \<open>None\<close> when it ends without returning. Only
  \<^verbatim>\<open>UnicodeDecodeError\<close> is caught; any other exception leaves the function.
\<close>

fun read_text_loop :: "filesystem \<Rightarrow> string \<Rightarrow> encoding list \<Rightarrow> (exn + str) option" where
  "read_text_loop fs file_path [] = None"
| "read_text_loop fs file_path (enc # encs) =
     (case open_read_text fs file_path enc Strict of
        Inr s \<Rightarrow> Some (Inr s)
      | Inl e \<Rightarrow>
          if e = UnicodeDecodeError then read_text_loop fs file_path encs
          else Some (Inl e))"

definition read_text_with_fallback :: "filesystem \<Rightarrow> string \<Rightarrow> exn + str" where
  "read_text_with_fallback fs file_path =
     (case read_text_loop fs file_path encodings of
        Some r \<Rightarrow> r
      | None \<Rightarrow> open_read_text fs file_path UTF_8 Replace)"

definition read_file :: "filesystem \<Rightarrow> string \<Rightarrow> exn + str" where
  "read_file fs file_path =
     (case read_text_with_fallback fs file_path of
        Inl e \<Rightarrow> Inl e
      | Inr content \<Rightarrow> Inr (strip content))"

text \<open>
  The same function with the calls of \<^verbatim>\<open>open\<close> it makes, in order: \<open>Open enc h\<close> is
  \<^verbatim>\<open>open(file_path, "r", encoding=enc, errors=h)\<close>.
\<close>

datatype open_call = Open encoding errors

fun read_text_loop_log ::
  "filesystem \<Rightarrow> string \<Rightarrow> encoding list \<Rightarrow> open_call list \<times> (exn + str) option" where
  "read_text_loop_log fs file_path [] = ([], None)"
| "read_text_loop_log fs file_path (enc # encs) =
     (case open_read_text fs file_path enc Strict of
        Inr s \<Rightarrow> ([Open enc Strict], Some (Inr s))
      | Inl e \<Rightarrow>
          if e = UnicodeDecodeError
          then (Open enc Strict # fst (read_text_loop_log fs file_path encs),
                snd (read_text_loop_log fs file_path encs))
          else ([Open enc Strict], Some (Inl e)))"

definition read_text_with_fallback_log ::
  "filesystem \<Rightarrow> string \<Rightarrow> open_call list \<times> (exn + str)" where
  "read_text_with_fallback_log fs file_path =
     (case snd (read_text_loop_log fs file_path encodings) of
        Some r \<Rightarrow> (fst (read_text_loop_log fs file_path encodings), r)
      | None \<Rightarrow>
          (fst (read_text_loop_log fs file_path encodings) @ [Open UTF_8 Replace],
           open_read_text fs file_path UTF_8 Replace))"

subsection \<open>\<^verbatim>\<open>load_json_file\<close>\<close>

text \<open>
  The body of both \<^verbatim>\<open>try\<close> blocks: \<^verbatim>\<open>text = data.decode(enc, h)\<close> and then
  \<^verbatim>\<open>return json.loads(text)\<close>.
\<close>

definition decode_and_loads ::
  "'v json_decoder \<Rightarrow> byte list \<Rightarrow> encoding \<Rightarrow> errors \<Rightarrow> exn + 'v" where
  "decode_and_loads decoder data enc h =
     (case decode data enc h of
        None \<Rightarrow> Inl UnicodeDecodeError
      | Some s \<Rightarrow> json_loads decoder s)"

text \<open>\<^verbatim>\<open>except (UnicodeDecodeError, json.JSONDecodeError)\<close> in the loop.\<close>

fun caught_in_loop :: "exn \<Rightarrow> bool" where
  "caught_in_loop UnicodeDecodeError = True"
| "caught_in_loop (JSONDecodeError msg doc pos) = True"
| "caught_in_loop (OSError e) = False"
| "caught_in_loop RecursionError = False"
| "caught_in_loop ValueError = False"

text \<open>
  The \<^verbatim>\<open>for\<close> loop over the encodings (\<open>None\<close>: it ended without returning). The
  variable \<^verbatim>\<open>last_error\<close> is assigned in the handler and read nowhere, so the model
  does not carry it.
\<close>

fun load_json_loop :: "'v json_decoder \<Rightarrow> byte list \<Rightarrow> encoding list \<Rightarrow> (exn + 'v) option" where
  "load_json_loop decoder data [] = None"
| "load_json_loop decoder data (enc # encs) =
     (case decode_and_loads decoder data enc Strict of
        Inr v \<Rightarrow> Some (Inr v)
      | Inl e \<Rightarrow>
          if caught_in_loop e then load_json_loop decoder data encs
          else Some (Inl e))"

text \<open>
  The final attempt catches \<^verbatim>\<open>json.JSONDecodeError\<close> only and raises a new one, with
  the message \<^verbatim>\<open>f"Failed to decode/parse JSON from {file_path}: {e.msg}"\<close> and the
  document and position of the one it caught.
\<close>

definition final_attempt :: "'v json_decoder \<Rightarrow> string \<Rightarrow> byte list \<Rightarrow> exn + 'v" where
  "final_attempt decoder file_path data =
     (case decode_and_loads decoder data UTF_8 Replace of
        Inr v \<Rightarrow> Inr v
      | Inl (JSONDecodeError msg doc pos) \<Rightarrow>
          Inl (JSONDecodeError
                 (''Failed to decode/parse JSON from '' @ file_path @ '': '' @ msg) doc pos)
      | Inl e \<Rightarrow> Inl e)"

definition load_json_file :: "'v json_decoder \<Rightarrow> filesystem \<Rightarrow> string \<Rightarrow> exn + 'v" where
  "load_json_file decoder fs file_path =
     (case open_read_binary fs file_path of
        Inl e \<Rightarrow> Inl e
      | Inr data \<Rightarrow>
          (case load_json_loop decoder data encodings of
             Some r \<Rightarrow> r
           | None \<Rightarrow> final_attempt decoder file_path data))"

text \<open>
  The same function with the attempts it makes, in order: \<open>Attempt enc h t\<close> is the
  call \<^verbatim>\<open>data.decode(enc, h)\<close>, and \<open>t\<close> the text it gave to \<^verbatim>\<open>json.loads\<close> (\<open>None\<close>
  when the decoding raised, so that nothing was parsed).
\<close>

datatype attempt = Attempt encoding errors "str option"

fun attempt_codec :: "attempt \<Rightarrow> encoding \<times> errors" where
  "attempt_codec (Attempt enc h t) = (enc, h)"

fun load_json_loop_log ::
  "'v json_decoder \<Rightarrow> byte list \<Rightarrow> encoding list \<Rightarrow> attempt list \<times> (exn + 'v) option" where
  "load_json_loop_log decoder data [] = ([], None)"
| "load_json_loop_log decoder data (enc # encs) =
     (case decode_and_loads decoder data enc Strict of
        Inr v \<Rightarrow> ([Attempt enc Strict (decode data enc Strict)], Some (Inr v))
      | Inl e \<Rightarrow>
          if caught_in_loop e
          then (Attempt enc Strict (decode data enc Strict)
                  # fst (load_json_loop_log decoder data encs),
                snd (load_json_loop_log decoder data encs))
          else ([Attempt enc Strict (decode data enc Strict)], Some (Inl e)))"

definition load_json_file_log ::
  "'v json_decoder \<Rightarrow> filesystem \<Rightarrow> string \<Rightarrow> attempt list \<times> (exn + 'v)" where
  "load_json_file_log decoder fs file_path =
     (case open_read_binary fs file_path of
        Inl e \<Rightarrow> ([], Inl e)
      | Inr data \<Rightarrow>
          (case snd (load_json_loop_log decoder data encodings) of
             Some r \<Rightarrow> (fst (load_json_loop_log decoder data encodings), r)
           | None \<Rightarrow>
               (fst (load_json_loop_log decoder data encodings)
                  @ [Attempt UTF_8 Replace (decode data UTF_8 Replace)],
                final_attempt decoder file_path data)))"

subsection \<open>The calls as steps of a world\<close>









subsection \<open>Files and decoders to run the functions on\<close>

text \<open>
  Two file systems to run the functions on: one that holds a single file, and one
  that holds none.
\<close>

definition file_at :: "string \<Rightarrow> byte list \<Rightarrow> filesystem" where
  "file_at name data p = (if p = name then Inr data else Inl FileNotFoundError)"

definition no_file :: filesystem where
  "no_file p = Inl FileNotFoundError"

text \<open>
  A decoder for the documents that are one decimal digit, to run the functions on
  concrete files. It reports \<open>Expecting value\<close> at position 0 for the other texts it
  is given below, as the JSON decoder does for them.
\<close>

definition digit_decoder :: "nat json_decoder" where
  "digit_decoder s =
     (case s of
        [c] \<Rightarrow>
          if 0x30 \<le> c \<and> c \<le> 0x39 then Parsed (c - 0x30)
          else Syntax_error ''Expecting value'' 0
      | _ \<Rightarrow> Syntax_error ''Expecting value'' 0)"

text \<open>
  A decoder for the texts that are a run of opening brackets \<open>[\<close>, and a file of
  100000 of them. The JSON decoder descends one level for each bracket: past the
  recursion limit (1000 by default) it raises \<^verbatim>\<open>RecursionError\<close>, and for a shorter
  run it reports \<open>Expecting value\<close> at the end of the run.
\<close>

definition bracket_decoder :: "nat json_decoder" where
  "bracket_decoder s =
     (if 1000 < length (takeWhile (\<lambda>c. c = 0x5B) s) then Recursion_limit
      else Syntax_error ''Expecting value'' (int (length (takeWhile (\<lambda>c. c = 0x5B) s))))"

definition deep_brackets :: "byte list" where
  "deep_brackets = replicate 100000 0x5B"

section \<open>Properties of the codecs\<close>

lemma decode_latin_1: "decode data LATIN_1 h = Some (map unat data)"
  by (simp add: latin_1_decode_def)

lemma utf8_decode_ascii:
  "\<forall>b\<in>set data. b < 0x80 \<Longrightarrow> utf8_decode h data = Some (map unat data)"
  by (induction data) (simp_all add: emit_def)

lemma utf8_decode_replace_total: "\<exists>s. utf8_decode Replace data = Some s"
  by (induction Replace data rule: utf8_decode.induct)
     (auto simp: emit_def split: list.splits)


lemma utf8_sig_decode_bom: "utf8_sig_decode h (BOM_UTF8 @ body) = utf8_decode h body"
  by (simp add: utf8_sig_decode_def BOM_UTF8_def)

section \<open>Newlines and whitespace\<close>

lemma translate_newlines_no_cr: "0x0D \<notin> set s \<Longrightarrow> translate_newlines s = s"
  by (induction s rule: translate_newlines.induct) auto

lemma translate_newlines_crlf:
  "translate_newlines (xs @ 0x0D # 0x0A # ys) =
     translate_newlines xs @ 0x0A # translate_newlines ys"
  by (induction xs rule: translate_newlines.induct) auto

lemma translate_newlines_cr:
  "c \<noteq> 0x0A \<Longrightarrow>
   translate_newlines (xs @ 0x0D # c # ys) =
     translate_newlines xs @ 0x0A # translate_newlines (c # ys)"
  by (induction xs rule: translate_newlines.induct) auto

lemma translate_newlines_cr_last:
  "translate_newlines (xs @ [0x0D]) = translate_newlines xs @ [0x0A]"
  by (induction xs rule: translate_newlines.induct) auto

lemma translate_newlines_cr_free: "0x0D \<notin> set (translate_newlines s)"
  by (induction s rule: translate_newlines.induct) auto

lemma set_strip: "set (strip s) \<subseteq> set s"
  by (auto simp: strip_def dest!: set_dropWhileD)

lemma no_cr_in_text:
  assumes "\<forall>b\<in>set data. b \<noteq> (0x0D :: byte)"
  shows "0x0D \<notin> set (map unat data)"
proof
  assume "0x0D \<in> set (map unat data)"
  then obtain b where b: "b \<in> set data" and u: "unat b = 0x0D" by auto
  have "of_nat (unat b) = b" by simp
  then have "b = 0x0D" unfolding u by simp
  with assms b show False by blast
qed

lemma strip_suffix:
  "dropWhile isspace s =
     strip s @ rev (takeWhile isspace (rev (dropWhile isspace s)))"
proof -
  let ?m = "dropWhile isspace s"
  have "takeWhile isspace (rev ?m) @ dropWhile isspace (rev ?m) = rev ?m"
    by (rule takeWhile_dropWhile_id)
  then have "rev (takeWhile isspace (rev ?m) @ dropWhile isspace (rev ?m)) = rev (rev ?m)"
    by (rule arg_cong)
  then have "rev (dropWhile isspace (rev ?m)) @ rev (takeWhile isspace (rev ?m)) = ?m"
    by (simp only: rev_append rev_rev_ident)
  then show ?thesis by (simp only: strip_def)
qed

lemma strip_decomposition:
  "\<exists>l r. s = l @ strip s @ r \<and> (\<forall>c\<in>set l. isspace c) \<and> (\<forall>c\<in>set r. isspace c)"
proof (intro exI conjI)
  let ?l = "takeWhile isspace s"
  let ?r = "rev (takeWhile isspace (rev (dropWhile isspace s)))"
  have "?l @ dropWhile isspace s = s" by (rule takeWhile_dropWhile_id)
  then show "s = ?l @ strip s @ ?r" by (subst (asm) strip_suffix) (rule sym)
  show "\<forall>c\<in>set ?l. isspace c" by (auto dest: set_takeWhileD)
  show "\<forall>c\<in>set ?r. isspace c" by (auto dest: set_takeWhileD)
qed

lemma strip_ends:
  assumes "strip s \<noteq> []"
  shows "\<not> isspace (hd (strip s)) \<and> \<not> isspace (last (strip s))"
proof
  let ?m = "dropWhile isspace s"
  let ?d = "dropWhile isspace (rev ?m)"
  have d: "?d \<noteq> []" using assms by (simp add: strip_def)
  then have "\<not> isspace (hd ?d)" by (rule hd_dropWhile)
  then show "\<not> isspace (last (strip s))" using d by (simp add: strip_def last_rev)
  have "?m \<noteq> []" using d by (auto dest: set_dropWhileD)
  then have "\<not> isspace (hd ?m)" by (rule hd_dropWhile)
  then have "\<not> isspace (hd (strip s @ rev (takeWhile isspace (rev ?m))))"
    by (subst (asm) strip_suffix)
  then show "\<not> isspace (hd (strip s))" using assms by simp
qed

section \<open>The loops\<close>

lemma text_decode_plain:
  "enc \<noteq> UTF_8_SIG \<Longrightarrow> text_decode data enc h = decode data enc h"
  by (simp add: text_decode_def)

lemma read_text_loop_log_snd:
  "snd (read_text_loop_log fs file_path encs) = read_text_loop fs file_path encs"
  by (induction encs) (auto split: sum.splits)

lemma read_text_with_fallback_log_snd:
  "snd (read_text_with_fallback_log fs file_path) = read_text_with_fallback fs file_path"
  by (simp add: read_text_with_fallback_log_def read_text_with_fallback_def
        read_text_loop_log_snd split: option.splits)

lemma load_json_loop_log_snd:
  "snd (load_json_loop_log decoder data encs) = load_json_loop decoder data encs"
  by (induction encs) (auto split: sum.splits)

lemma load_json_file_log_snd:
  "snd (load_json_file_log decoder fs file_path) = load_json_file decoder fs file_path"
  by (simp add: load_json_file_log_def load_json_file_def load_json_loop_log_snd
        split: sum.splits option.splits)

lemma read_text_loop_log_first:
  assumes "fs file_path = Inr data"
    and "\<forall>e\<in>set pre. text_decode data e Strict = None"
    and "text_decode data enc Strict = Some s"
  shows "read_text_loop_log fs file_path (pre @ enc # post) =
           (map (\<lambda>e. Open e Strict) (pre @ [enc]), Some (Inr (translate_newlines s)))"
  using assms by (induction pre) (simp_all add: open_read_text_def)

lemma read_text_loop_log_unreadable:
  "fs file_path = Inl e \<Longrightarrow>
   read_text_loop_log fs file_path (enc # encs) = ([Open enc Strict], Some (Inl (OSError e)))"
  by (simp add: open_read_text_def)

lemma load_json_loop_log_first:
  assumes "\<forall>e\<in>set pre. \<exists>x. decode_and_loads decoder data e Strict = Inl x \<and> caught_in_loop x"
    and "decode_and_loads decoder data enc Strict = Inr v"
  shows "load_json_loop_log decoder data (pre @ enc # post) =
           (map (\<lambda>e. Attempt e Strict (decode data e Strict)) (pre @ [enc]), Some (Inr v))"
  using assms by (induction pre) auto

lemma load_json_loop_log_all_fail:
  assumes "\<forall>e\<in>set encs. \<exists>x. decode_and_loads decoder data e Strict = Inl x \<and> caught_in_loop x"
  shows "load_json_loop_log decoder data encs =
           (map (\<lambda>e. Attempt e Strict (decode data e Strict)) encs, None)"
  using assms by (induction encs) auto

lemma first_strict_decoding:
  "\<exists>pre enc post s. encodings = pre @ enc # post \<and>
     (\<forall>e\<in>set pre. text_decode data e Strict = None) \<and> text_decode data enc Strict = Some s"
proof -
  have "\<exists>e\<in>set encodings. text_decode data e Strict \<noteq> None"
    by (rule bexI [of _ LATIN_1])
       (simp_all add: encodings_def text_decode_def latin_1_decode_def)
  then obtain pre enc post where "encodings = pre @ enc # post"
    and "text_decode data enc Strict \<noteq> None"
    and "\<forall>e\<in>set pre. \<not> text_decode data e Strict \<noteq> None"
    by (auto dest!: split_list_first_prop)
  then show ?thesis by auto
qed

lemma json_loads_error:
  "json_loads decoder s = Inl (JSONDecodeError msg doc pos) \<Longrightarrow> doc = s"
  by (auto simp: json_loads_def split: if_splits parsed.splits)

lemma decode_and_loads_not_decode_error:
  "decode data enc h = Some s \<Longrightarrow>
   decode_and_loads decoder data enc h \<noteq> Inl UnicodeDecodeError \<and>
   decode_and_loads decoder data enc h \<noteq> Inl (OSError e)"
  by (auto simp: decode_and_loads_def json_loads_def split: if_splits parsed.splits)

lemma load_json_loop_log_uncaught:
  "snd (load_json_loop_log decoder data encs) = Some (Inl x) \<Longrightarrow> \<not> caught_in_loop x"
  by (induction encs) (auto split: sum.splits if_splits)

lemma load_json_loop_log_exhausted:
  "snd (load_json_loop_log decoder data encs) = None \<Longrightarrow>
   map attempt_codec (fst (load_json_loop_log decoder data encs)) = map (\<lambda>e. (e, Strict)) encs"
  by (induction encs) (auto split: sum.splits if_splits)

lemma load_json_loop_log_head:
  "\<exists>rest. fst (load_json_loop_log decoder data (enc # encs)) =
     Attempt enc Strict (decode data enc Strict) # rest"
  by (auto split: sum.splits)

lemma read_text_with_fallback_log_first:
  assumes "fs file_path = Inr data"
    and "encodings = pre @ enc # post"
    and "\<forall>e\<in>set pre. text_decode data e Strict = None"
    and "text_decode data enc Strict = Some s"
  shows "read_text_with_fallback_log fs file_path =
           (map (\<lambda>e. Open e Strict) (pre @ [enc]), Inr (translate_newlines s))"
proof -
  have "read_text_loop_log fs file_path encodings =
      (map (\<lambda>e. Open e Strict) (pre @ [enc]), Some (Inr (translate_newlines s)))"
    unfolding assms(2) using assms(1,3,4) by (rule read_text_loop_log_first)
  then show ?thesis by (simp add: read_text_with_fallback_log_def)
qed

lemma read_file_first:
  assumes "fs file_path = Inr data"
    and "encodings = pre @ enc # post"
    and "\<forall>e\<in>set pre. text_decode data e Strict = None"
    and "text_decode data enc Strict = Some s"
  shows "read_text_with_fallback fs file_path = Inr (translate_newlines s)"
    and "read_file fs file_path = Inr (strip (translate_newlines s))"
proof -
  show "read_text_with_fallback fs file_path = Inr (translate_newlines s)"
    using read_text_with_fallback_log_first [where fs = fs and file_path = file_path, OF assms]
      read_text_with_fallback_log_snd [of fs file_path] by simp
  then show "read_file fs file_path = Inr (strip (translate_newlines s))"
    by (simp add: read_file_def)
qed

lemma read_file_ascii:
  assumes "fs file_path = Inr data" and "\<forall>b\<in>set data. b < 0x80"
  shows "read_text_with_fallback fs file_path = Inr (translate_newlines (map unat data))"
    and "read_file fs file_path = Inr (strip (translate_newlines (map unat data)))"
proof -
  have enc: "encodings = [] @ UTF_8 # [UTF_8_SIG, CP1252, LATIN_1]"
    by (simp add: encodings_def)
  have none: "\<forall>e\<in>set []. text_decode data e Strict = None" by simp
  have some: "text_decode data UTF_8 Strict = Some (map unat data)"
    using assms(2) by (simp add: text_decode_def utf8_decode_ascii)
  show "read_text_with_fallback fs file_path = Inr (translate_newlines (map unat data))"
    using assms(1) enc none some by (rule read_file_first(1))
  show "read_file fs file_path = Inr (strip (translate_newlines (map unat data)))"
    using assms(1) enc none some by (rule read_file_first(2))
qed

lemma read_text_with_fallback_log_unreadable:
  "fs file_path = Inl e \<Longrightarrow>
   read_text_with_fallback_log fs file_path = ([Open UTF_8 Strict], Inl (OSError e))"
  by (simp add: read_text_with_fallback_log_def encodings_def open_read_text_def)

section \<open>The calls as steps of a world\<close>








section \<open>The file of brackets\<close>

lemma decode_ascii:
  assumes "\<forall>b\<in>set data. b < 0x80"
  shows "decode data enc h = Some (map unat data)"
proof (cases enc)
  case UTF_8
  then show ?thesis using assms by (simp add: utf8_decode_ascii)
next
  case UTF_8_SIG
  have "take 3 data \<noteq> BOM_UTF8"
  proof
    assume "take 3 data = BOM_UTF8"
    then have "0xEF \<in> set (take 3 data)" by (simp add: BOM_UTF8_def)
    then have "0xEF \<in> set data" by (rule in_set_takeD)
    with assms show False by auto
  qed
  with UTF_8_SIG show ?thesis using assms by (simp add: utf8_sig_decode_def utf8_decode_ascii)
next
  case CP1252
  have "charmap_decode h cp1252_table data = Some (map unat data)"
    using assms by (induction data) (auto simp: cp1252_table_def emit_def)
  with CP1252 show ?thesis by simp
next
  case LATIN_1
  then show ?thesis by (simp add: latin_1_decode_def)
qed

lemma deep_brackets_decode: "decode deep_brackets enc h = Some (replicate 100000 0x5B)"
proof -
  have "\<forall>b\<in>set deep_brackets. b < 0x80" by (simp add: deep_brackets_def)
  then have "decode deep_brackets enc h = Some (map unat deep_brackets)" by (rule decode_ascii)
  then show ?thesis by (simp add: deep_brackets_def)
qed

lemma deep_brackets_utf8: "utf8_decode h deep_brackets = Some (replicate 100000 0x5B)"
  using deep_brackets_decode [of UTF_8 h] by simp

lemma bracket_decoder_deep: "bracket_decoder (replicate 100000 0x5B) = Recursion_limit"
  by (simp add: bracket_decoder_def)

lemma deep_brackets_attempt:
  "decode_and_loads bracket_decoder deep_brackets enc h = Inl RecursionError"
proof -
  have "take 1 (replicate 100000 (0x5B :: nat)) \<noteq> [0xFEFF]"
    by (simp add: take_Suc_conv_app_nth)
  then show ?thesis
    by (simp add: decode_and_loads_def deep_brackets_decode json_loads_def bracket_decoder_deep)
qed

section \<open>The claims\<close>

text \<open>
  C1. \<^verbatim>\<open>load_json_file\<close> tries the candidates in the fixed order UTF-8, UTF-8 with BOM,
  Windows-1252, Latin-1 and returns the value of the first one for which decoding the
  bytes and parsing the text both succeed; no later candidate is attempted. Here
  \<open>pre\<close> are the candidates before that one, each of which fails at decoding or with
  a JSON parse error, and the log of the call holds the attempts for \<open>pre\<close> and for
  \<open>enc\<close> and nothing after them.
\<close>

theorem load_json_file_first_success:
  assumes "fs file_path = Inr data"
    and "encodings = pre @ enc # post"
    and "\<forall>e\<in>set pre. \<exists>x. decode_and_loads decoder data e Strict = Inl x \<and> caught_in_loop x"
    and "decode_and_loads decoder data enc Strict = Inr v"
  shows "encodings = [UTF_8, UTF_8_SIG, CP1252, LATIN_1] \<and>
         load_json_file decoder fs file_path = Inr v \<and>
         load_json_file_log decoder fs file_path =
           (map (\<lambda>e. Attempt e Strict (decode data e Strict)) (pre @ [enc]), Inr v)"
proof -
  have loop: "load_json_loop_log decoder data encodings =
      (map (\<lambda>e. Attempt e Strict (decode data e Strict)) (pre @ [enc]), Some (Inr v))"
    unfolding assms(2) using assms(3,4) by (rule load_json_loop_log_first)
  then have log: "load_json_file_log decoder fs file_path =
      (map (\<lambda>e. Attempt e Strict (decode data e Strict)) (pre @ [enc]), Inr v)"
    using assms(1) by (simp add: load_json_file_log_def open_read_binary_def)
  then have "load_json_file decoder fs file_path = Inr v"
    using load_json_file_log_snd [of decoder fs file_path] by simp
  with log show ?thesis by (simp add: encodings_def)
qed

theorem load_json_file_first_success_witness:
  "load_json_file digit_decoder (file_at ''a.json'' [0xEF, 0xBB, 0xBF, 0x37]) ''a.json'' = Inr 7 \<and>
   load_json_file_log digit_decoder (file_at ''a.json'' [0xEF, 0xBB, 0xBF, 0x37]) ''a.json'' =
     ([Attempt UTF_8 Strict (Some [0xFEFF, 0x37]), Attempt UTF_8_SIG Strict (Some [0x37])], Inr 7)"
  using load_json_file_first_success
    [of "file_at ''a.json'' [0xEF, 0xBB, 0xBF, 0x37]" "''a.json''" "[0xEF, 0xBB, 0xBF, 0x37]"
        "[UTF_8]" UTF_8_SIG "[CP1252, LATIN_1]" digit_decoder 7]
  by (simp add: file_at_def encodings_def decode_and_loads_def json_loads_def digit_decoder_def
        utf8_sig_decode_def BOM_UTF8_def emit_def is_continuation_byte_def)

text \<open>
  C2. For every file that can be read, whatever its bytes are, \<^verbatim>\<open>read_file\<close> returns a
  string; no decoding error reaches the caller.
\<close>

theorem read_file_returns_str:
  assumes "fs file_path = Inr data"
  shows "(\<exists>s. read_file fs file_path = Inr s) \<and> read_file fs file_path \<noteq> Inl UnicodeDecodeError"
proof -
  obtain pre enc post s where split: "encodings = pre @ enc # post"
    and none: "\<forall>e\<in>set pre. text_decode data e Strict = None"
    and some: "text_decode data enc Strict = Some s"
    using first_strict_decoding [of data] by blast
  have "read_file fs file_path = Inr (strip (translate_newlines s))"
    using assms split none some by (rule read_file_first(2))
  then show ?thesis by simp
qed

theorem read_file_returns_str_witness:
  "(\<exists>s. read_file (file_at ''raw.bin'' [0x81, 0xFF, 0xC0]) ''raw.bin'' = Inr s) \<and>
   read_file (file_at ''raw.bin'' [0x81, 0xFF, 0xC0]) ''raw.bin'' = Inr [0x81, 0xFF, 0xC0]"
  using read_file_returns_str [of "file_at ''raw.bin'' [0x81, 0xFF, 0xC0]" "''raw.bin''" "[0x81, 0xFF, 0xC0]"]
  by (simp add: file_at_def read_file_def read_text_with_fallback_def encodings_def
        open_read_text_def text_decode_def utf8_sig_decode_def BOM_UTF8_def cp1252_table_def
        cp1252_high_def latin_1_decode_def strip_def isspace_def)

text \<open>
  C3, as stated, says that for a UTF-8 file with ASCII content \<^verbatim>\<open>read_file\<close> returns
  exactly the content with the surrounding whitespace stripped. The file that holds a
  space, \<^verbatim>\<open>a\<close>, \<open>CR\<close>, \<open>LF\<close>, \<^verbatim>\<open>b\<close> and a space is such a file: its content
  stripped is \<^verbatim>\<open>a\r\nb\<close>, and \<^verbatim>\<open>read_file\<close> returns \<^verbatim>\<open>a\nb\<close>.
\<close>

theorem read_file_content_counterexample:
  "decode [0x20, 0x61, 0x0D, 0x0A, 0x62, 0x20] UTF_8 Strict
     = Some [0x20, 0x61, 0x0D, 0x0A, 0x62, 0x20] \<and>
   strip [0x20, 0x61, 0x0D, 0x0A, 0x62, 0x20] = [0x61, 0x0D, 0x0A, 0x62] \<and>
   read_file (file_at ''crlf.txt'' [0x20, 0x61, 0x0D, 0x0A, 0x62, 0x20]) ''crlf.txt''
     = Inr [0x61, 0x0A, 0x62] \<and>
   read_file (file_at ''crlf.txt'' [0x20, 0x61, 0x0D, 0x0A, 0x62, 0x20]) ''crlf.txt''
     \<noteq> Inr (strip [0x20, 0x61, 0x0D, 0x0A, 0x62, 0x20])"
  by (simp add: file_at_def read_file_def read_text_with_fallback_def encodings_def
        open_read_text_def text_decode_def emit_def strip_def isspace_def)

text \<open>
  C3, amended. For every file that can be read, \<^verbatim>\<open>read_file\<close> returns the text of the
  file as the text layer reads it, with the whitespace at both ends removed: the bytes
  decoded by the first candidate whose text-mode decoder accepts them, every \<open>CR LF\<close>
  and every other \<open>CR\<close> turned into \<open>LF\<close>, so that no \<open>CR\<close> is left in the
  result. For ASCII bytes that text is the bytes themselves with the line ends
  translated; for ASCII bytes with no \<open>CR\<close> among them the result is exactly the
  content stripped; for an empty file it is the empty string. What the translation
  does to each \<open>CR\<close> is stated by \<open>translate_newlines_crlf\<close>,
  \<open>translate_newlines_cr\<close> and \<open>translate_newlines_cr_last\<close>, and what \<open>strip\<close>
  removes by \<open>strip_decomposition\<close> and \<open>strip_ends\<close>.
\<close>

theorem read_file_strips_translated_text:
  assumes "fs file_path = Inr data"
  shows "(\<exists>pre enc post s.
            encodings = pre @ enc # post \<and>
            (\<forall>e\<in>set pre. text_decode data e Strict = None) \<and>
            text_decode data enc Strict = Some s \<and>
            read_file fs file_path = Inr (strip (translate_newlines s))) \<and>
         (\<forall>r. read_file fs file_path = Inr r \<longrightarrow> 0x0D \<notin> set r) \<and>
         ((\<forall>b\<in>set data. b < 0x80) \<longrightarrow>
            read_file fs file_path = Inr (strip (translate_newlines (map unat data)))) \<and>
         ((\<forall>b\<in>set data. b < 0x80 \<and> b \<noteq> 0x0D) \<longrightarrow>
            read_file fs file_path = Inr (strip (map unat data))) \<and>
         (data = [] \<longrightarrow> read_file fs file_path = Inr [])"
proof (intro conjI impI allI)
  obtain pre enc post s where split: "encodings = pre @ enc # post"
    and none: "\<forall>e\<in>set pre. text_decode data e Strict = None"
    and some: "text_decode data enc Strict = Some s"
    using first_strict_decoding [of data] by blast
  have result: "read_file fs file_path = Inr (strip (translate_newlines s))"
    using assms split none some by (rule read_file_first(2))
  with split none some
  show "\<exists>pre enc post s. encodings = pre @ enc # post \<and>
      (\<forall>e\<in>set pre. text_decode data e Strict = None) \<and>
      text_decode data enc Strict = Some s \<and>
      read_file fs file_path = Inr (strip (translate_newlines s))"
    by blast
  fix r
  assume "read_file fs file_path = Inr r"
  with result have "r = strip (translate_newlines s)" by simp
  then have "set r \<subseteq> set (translate_newlines s)" by (simp add: set_strip)
  then show "0x0D \<notin> set r" using translate_newlines_cr_free [of s] by blast
next
  assume "\<forall>b\<in>set data. b < 0x80"
  with assms show "read_file fs file_path = Inr (strip (translate_newlines (map unat data)))"
    by (rule read_file_ascii(2))
next
  assume a: "\<forall>b\<in>set data. b < 0x80 \<and> b \<noteq> 0x0D"
  then have ascii: "\<forall>b\<in>set data. b < 0x80" and "\<forall>b\<in>set data. b \<noteq> 0x0D" by auto
  then have "translate_newlines (map unat data) = map unat data"
    by (intro translate_newlines_no_cr no_cr_in_text)
  then show "read_file fs file_path = Inr (strip (map unat data))"
    using read_file_ascii(2) [where fs = fs and file_path = file_path, OF assms ascii] by simp
next
  assume "data = []"
  then show "read_file fs file_path = Inr []"
    using read_file_ascii(2) [where fs = fs and file_path = file_path and data = data] assms
    by (simp add: strip_def)
qed

theorem read_file_strips_translated_text_witness:
  "read_file (file_at ''hello.txt'' [0x20, 0x09, 0x68, 0x69, 0x20, 0x0A]) ''hello.txt''
     = Inr [0x68, 0x69] \<and>
   read_file (file_at ''mac.txt'' [0x61, 0x0D, 0x62]) ''mac.txt'' = Inr [0x61, 0x0A, 0x62] \<and>
   read_file (file_at ''mark.txt'' [0xEF]) ''mark.txt'' = Inr [] \<and>
   read_file (file_at ''empty.txt'' []) ''empty.txt'' = Inr []"
  using read_file_strips_translated_text
    [of "file_at ''hello.txt'' [0x20, 0x09, 0x68, 0x69, 0x20, 0x0A]" "''hello.txt''"
        "[0x20, 0x09, 0x68, 0x69, 0x20, 0x0A]"]
    read_file_strips_translated_text [of "file_at ''empty.txt'' []" "''empty.txt''" "[]"]
  by (simp add: file_at_def strip_def isspace_def read_file_def read_text_with_fallback_def
        encodings_def open_read_text_def text_decode_def emit_def BOM_UTF8_def)

text \<open>
  C4, as stated, says that when every combination of decoding and parsing fails,
  \<^verbatim>\<open>load_json_file\<close> fails with a JSON parse error that carries the composed message.
  For the file of 100000 opening brackets every combination fails, the four
  candidates and the final attempt with substitution alike, since the parser raises
  \<^verbatim>\<open>RecursionError\<close> for the text; the handlers catch decoding errors and JSON parse
  errors only, and the call ends with that \<^verbatim>\<open>RecursionError\<close>, at the first attempt.
\<close>

theorem load_json_file_all_attempts_fail_counterexample:
  "decode_and_loads bracket_decoder deep_brackets UTF_8 Strict = Inl RecursionError \<and>
   decode_and_loads bracket_decoder deep_brackets UTF_8_SIG Strict = Inl RecursionError \<and>
   decode_and_loads bracket_decoder deep_brackets CP1252 Strict = Inl RecursionError \<and>
   decode_and_loads bracket_decoder deep_brackets LATIN_1 Strict = Inl RecursionError \<and>
   decode_and_loads bracket_decoder deep_brackets UTF_8 Replace = Inl RecursionError \<and>
   load_json_file_log bracket_decoder (file_at ''deep.json'' deep_brackets) ''deep.json'' =
     ([Attempt UTF_8 Strict (Some (replicate 100000 0x5B))], Inl RecursionError)"
  by (simp add: deep_brackets_attempt deep_brackets_utf8 load_json_file_log_def
        open_read_binary_def file_at_def encodings_def)

text \<open>
  C4, amended. When each of the four candidates fails at decoding or with a JSON
  parse error, and the final attempt, UTF-8 with substitution, fails with a JSON parse
  error too, \<^verbatim>\<open>load_json_file\<close> raises a \<^verbatim>\<open>JSONDecodeError\<close>: its message is
  \<^verbatim>\<open>Failed to decode/parse JSON from \<close>, the path, \<^verbatim>\<open>: \<close> and the message of the parser
  for the last text; its document is that text, the bytes decoded with substitution,
  and its position is the position the parser reported.
\<close>

theorem load_json_file_all_attempts_fail:
  assumes "fs file_path = Inr data"
    and "\<forall>e\<in>set encodings.
           \<exists>x. decode_and_loads decoder data e Strict = Inl x \<and> caught_in_loop x"
    and "\<exists>x. decode_and_loads decoder data UTF_8 Replace = Inl x \<and> caught_in_loop x"
  shows "\<exists>doc msg pos.
           decode data UTF_8 Replace = Some doc \<and>
           json_loads decoder doc = Inl (JSONDecodeError msg doc pos) \<and>
           load_json_file decoder fs file_path =
             Inl (JSONDecodeError
                    (''Failed to decode/parse JSON from '' @ file_path @ '': '' @ msg) doc pos)"
proof -
  obtain doc where doc: "decode data UTF_8 Replace = Some doc"
    using utf8_decode_replace_total [of data] by auto
  then have dl: "decode_and_loads decoder data UTF_8 Replace = json_loads decoder doc"
    by (simp add: decode_and_loads_def)
  with assms(3) obtain x where x: "json_loads decoder doc = Inl x" and "caught_in_loop x"
    by auto
  moreover have "x \<noteq> UnicodeDecodeError"
    using decode_and_loads_not_decode_error [OF doc, of decoder] dl x by simp
  ultimately obtain msg d pos where "x = JSONDecodeError msg d pos"
    by (cases x) auto
  with x have err: "json_loads decoder doc = Inl (JSONDecodeError msg doc pos)"
    using json_loads_error [of decoder doc msg d pos] by simp
  have "load_json_loop_log decoder data encodings =
      (map (\<lambda>e. Attempt e Strict (decode data e Strict)) encodings, None)"
    using assms(2) by (rule load_json_loop_log_all_fail)
  then have "load_json_loop decoder data encodings = None"
    using load_json_loop_log_snd [of decoder data encodings] by simp
  then have "load_json_file decoder fs file_path =
      Inl (JSONDecodeError
             (''Failed to decode/parse JSON from '' @ file_path @ '': '' @ msg) doc pos)"
    using assms(1) dl err
    by (simp add: load_json_file_def open_read_binary_def final_attempt_def)
  with doc err show ?thesis by blast
qed

theorem load_json_file_all_attempts_fail_witness:
  "decode [0x81] UTF_8 Replace = Some [0xFFFD] \<and>
   load_json_file digit_decoder (file_at ''raw.bin'' [0x81]) ''raw.bin'' =
     Inl (JSONDecodeError ''Failed to decode/parse JSON from raw.bin: Expecting value''
            [0xFFFD] 0)"
  using load_json_file_all_attempts_fail
    [of "file_at ''raw.bin'' [0x81]" "''raw.bin''" "[0x81]" digit_decoder]
  by (simp add: file_at_def encodings_def decode_and_loads_def json_loads_def digit_decoder_def
        utf8_sig_decode_def BOM_UTF8_def cp1252_table_def cp1252_high_def latin_1_decode_def)

text \<open>
  C5, as stated, says that a file whose bytes are valid UTF-8 and whose text is not
  valid JSON is retried under the three other candidates and in the final attempt
  before the call fails. For the file that is a byte-order mark followed by 100000
  opening brackets, UTF-8 decodes the bytes and the parser refuses the text with a JSON
  parse error (it starts with U+FEFF); the second attempt, UTF-8 with BOM, makes the
  parser raise \<^verbatim>\<open>RecursionError\<close>, which the loop does not catch: the call fails after
  two attempts, with neither Windows-1252 nor Latin-1 nor the final attempt made.
\<close>

theorem load_json_file_retries_counterexample:
  "decode (BOM_UTF8 @ deep_brackets) UTF_8 Strict = Some (0xFEFF # replicate 100000 0x5B) \<and>
   json_loads bracket_decoder (0xFEFF # replicate 100000 0x5B) =
     Inl (JSONDecodeError ''Unexpected UTF-8 BOM (decode using utf-8-sig)''
            (0xFEFF # replicate 100000 0x5B) 0) \<and>
   load_json_file_log bracket_decoder (file_at ''deep.json'' (BOM_UTF8 @ deep_brackets))
       ''deep.json'' =
     ([Attempt UTF_8 Strict (Some (0xFEFF # replicate 100000 0x5B)),
       Attempt UTF_8_SIG Strict (Some (replicate 100000 0x5B))],
      Inl RecursionError)"
proof -
  have plain: "decode (BOM_UTF8 @ deep_brackets) UTF_8 Strict =
      Some (0xFEFF # replicate 100000 0x5B)"
    by (simp add: BOM_UTF8_def emit_def is_continuation_byte_def deep_brackets_utf8)
  have sig: "decode (BOM_UTF8 @ deep_brackets) UTF_8_SIG Strict =
      Some (replicate 100000 0x5B)"
    by (simp add: utf8_sig_decode_bom deep_brackets_utf8)
  have refused: "json_loads bracket_decoder (0xFEFF # replicate 100000 0x5B) =
      Inl (JSONDecodeError ''Unexpected UTF-8 BOM (decode using utf-8-sig)''
             (0xFEFF # replicate 100000 0x5B) 0)"
    by (simp add: json_loads_def)
  have "take 1 (replicate 100000 (0x5B :: nat)) \<noteq> [0xFEFF]"
    by (simp add: take_Suc_conv_app_nth)
  then have deep: "json_loads bracket_decoder (replicate 100000 0x5B) = Inl RecursionError"
    by (simp add: json_loads_def bracket_decoder_deep)
  have "load_json_file_log bracket_decoder (file_at ''deep.json'' (BOM_UTF8 @ deep_brackets))
      ''deep.json'' =
     ([Attempt UTF_8 Strict (Some (0xFEFF # replicate 100000 0x5B)),
       Attempt UTF_8_SIG Strict (Some (replicate 100000 0x5B))],
      Inl RecursionError)"
    using plain sig refused deep
    by (simp add: load_json_file_log_def open_read_binary_def file_at_def encodings_def
          decode_and_loads_def)
  with plain refused show ?thesis by simp
qed

text \<open>
  C5, amended. For a file whose bytes are valid UTF-8 but whose text the parser
  refuses with a JSON parse error, the loop goes on: the next candidate, UTF-8 with
  BOM, is attempted, and the call does not end with a JSON parse error before the four
  candidates and the final attempt with substitution have all been made. The handler
  of the loop treats a JSON parse error as it treats a decoding error.
\<close>

theorem load_json_file_retries_after_parse_failure:
  assumes "fs file_path = Inr data"
    and "decode data UTF_8 Strict = Some s"
    and "json_loads decoder s = Inl (JSONDecodeError msg doc pos)"
  shows "(\<exists>rest r. load_json_file_log decoder fs file_path =
            (Attempt UTF_8 Strict (Some s)
               # Attempt UTF_8_SIG Strict (decode data UTF_8_SIG Strict) # rest, r)) \<and>
         (\<forall>m d p. load_json_file decoder fs file_path = Inl (JSONDecodeError m d p) \<longrightarrow>
            map attempt_codec (fst (load_json_file_log decoder fs file_path)) =
              [(UTF_8, Strict), (UTF_8_SIG, Strict), (CP1252, Strict), (LATIN_1, Strict),
               (UTF_8, Replace)])"
proof (intro conjI allI impI)
  let ?rest = "[CP1252, LATIN_1]"
  let ?loop = "load_json_loop_log decoder data encodings"
  have first: "decode_and_loads decoder data UTF_8 Strict = Inl (JSONDecodeError msg doc pos)"
    using assms(2,3) by (simp add: decode_and_loads_def)
  obtain rest where rest: "fst (load_json_loop_log decoder data (UTF_8_SIG # ?rest)) =
      Attempt UTF_8_SIG Strict (decode data UTF_8_SIG Strict) # rest"
    using load_json_loop_log_head [of decoder data UTF_8_SIG ?rest] by blast
  have loop: "fst ?loop = Attempt UTF_8 Strict (Some s)
      # Attempt UTF_8_SIG Strict (decode data UTF_8_SIG Strict) # rest"
    using first rest assms(2) by (simp add: encodings_def)
  show "\<exists>rest r. load_json_file_log decoder fs file_path =
      (Attempt UTF_8 Strict (Some s)
         # Attempt UTF_8_SIG Strict (decode data UTF_8_SIG Strict) # rest, r)"
    using assms(1) loop
    by (cases "snd ?loop") (simp_all add: load_json_file_log_def open_read_binary_def)
  fix m d p
  assume fail: "load_json_file decoder fs file_path = Inl (JSONDecodeError m d p)"
  have "snd ?loop = None"
  proof (cases "snd ?loop")
    case None
    then show ?thesis .
  next
    case (Some r)
    then have "load_json_loop decoder data encodings = Some r"
      using load_json_loop_log_snd [of decoder data encodings] by simp
    then have "r = Inl (JSONDecodeError m d p)"
      using fail assms(1) by (simp add: load_json_file_def open_read_binary_def)
    with Some show ?thesis
      using load_json_loop_log_uncaught [of decoder data encodings "JSONDecodeError m d p"]
      by simp
  qed
  moreover from this have "map attempt_codec (fst ?loop) = map (\<lambda>e. (e, Strict)) encodings"
    by (rule load_json_loop_log_exhausted)
  ultimately show "map attempt_codec (fst (load_json_file_log decoder fs file_path)) =
      [(UTF_8, Strict), (UTF_8_SIG, Strict), (CP1252, Strict), (LATIN_1, Strict),
       (UTF_8, Replace)]"
    using assms(1)
    by (simp add: load_json_file_log_def open_read_binary_def encodings_def)
qed

theorem load_json_file_retries_after_parse_failure_witness:
  "decode [0x78] UTF_8 Strict = Some [0x78] \<and>
   json_loads digit_decoder [0x78] = Inl (JSONDecodeError ''Expecting value'' [0x78] 0) \<and>
   load_json_file_log digit_decoder (file_at ''x.json'' [0x78]) ''x.json'' =
     ([Attempt UTF_8 Strict (Some [0x78]), Attempt UTF_8_SIG Strict (Some [0x78]),
       Attempt CP1252 Strict (Some [0x78]), Attempt LATIN_1 Strict (Some [0x78]),
       Attempt UTF_8 Replace (Some [0x78])],
      Inl (JSONDecodeError ''Failed to decode/parse JSON from x.json: Expecting value''
             [0x78] 0))"
  using load_json_file_retries_after_parse_failure
    [of "file_at ''x.json'' [0x78]" "''x.json''" "[0x78]" "[0x78]" digit_decoder
        "''Expecting value''" "[0x78]" 0]
  by (simp add: file_at_def load_json_file_log_def open_read_binary_def final_attempt_def
        encodings_def decode_and_loads_def json_loads_def digit_decoder_def emit_def
        utf8_sig_decode_def BOM_UTF8_def cp1252_table_def latin_1_decode_def)

text \<open>
  C6. When the path cannot be read, \<^verbatim>\<open>read_file\<close> and \<^verbatim>\<open>load_json_file\<close> both end with
  the error of \<^verbatim>\<open>open\<close> itself, unchanged: it is neither caught nor turned into a
  decoding or JSON error.
\<close>

theorem file_access_error_propagates:
  assumes "fs file_path = Inl e"
  shows "read_file fs file_path = Inl (OSError e) \<and>
         load_json_file decoder fs file_path = Inl (OSError e)"
  using assms
  by (simp add: read_file_def read_text_with_fallback_def encodings_def open_read_text_def
        load_json_file_def open_read_binary_def)

theorem file_access_error_propagates_witness:
  "read_file no_file ''missing.txt'' = Inl (OSError FileNotFoundError) \<and>
   load_json_file digit_decoder no_file ''missing.txt''
     = Inl (OSError FileNotFoundError)"
  using file_access_error_propagates
    [of no_file "''missing.txt''" FileNotFoundError digit_decoder]
  by (simp add: no_file_def)





text \<open>
  C9. In the text reader the last resort, UTF-8 with substitution, is never reached:
  strict Latin-1 decodes every sequence of bytes, so for a file that can be read the
  loop returns at one of its four strict attempts. The file is opened at most four
  times, each time strictly, and the log of the calls is the list of the candidates up
  to the one that decoded. (For a path that cannot be read the first call of
  \<^verbatim>\<open>open\<close> raises, by \<open>read_text_with_fallback_log_unreadable\<close>.)
\<close>

theorem read_text_fallback_unreachable:
  assumes "fs file_path = Inr data"
  shows "decode data LATIN_1 Strict = Some (map unat data) \<and>
         (\<exists>pre enc post s.
            encodings = pre @ enc # post \<and>
            read_text_with_fallback_log fs file_path =
              (map (\<lambda>e. Open e Strict) (pre @ [enc]), Inr s)) \<and>
         Open UTF_8 Replace \<notin> set (fst (read_text_with_fallback_log fs file_path)) \<and>
         length (fst (read_text_with_fallback_log fs file_path)) \<le> 4"
proof -
  obtain pre enc post s where split: "encodings = pre @ enc # post"
    and none: "\<forall>e\<in>set pre. text_decode data e Strict = None"
    and some: "text_decode data enc Strict = Some s"
    using first_strict_decoding [of data] by blast
  have log: "read_text_with_fallback_log fs file_path =
      (map (\<lambda>e. Open e Strict) (pre @ [enc]), Inr (translate_newlines s))"
    using assms split none some by (rule read_text_with_fallback_log_first)
  have "length (pre @ enc # post) = 4"
    using split [symmetric] by (simp add: encodings_def)
  then have len: "length (fst (read_text_with_fallback_log fs file_path)) \<le> 4"
    using log by simp
  have "Open UTF_8 Replace \<notin> set (fst (read_text_with_fallback_log fs file_path))"
    using log by auto
  with log len split show ?thesis by (auto simp: latin_1_decode_def)
qed

theorem read_text_fallback_unreachable_witness:
  "read_text_with_fallback_log (file_at ''raw.bin'' [0x81]) ''raw.bin'' =
     ([Open UTF_8 Strict, Open UTF_8_SIG Strict, Open CP1252 Strict, Open LATIN_1 Strict],
      Inr [0x81]) \<and>
   length (fst (read_text_with_fallback_log (file_at ''raw.bin'' [0x81]) ''raw.bin'')) \<le> 4"
  using read_text_fallback_unreachable [of "file_at ''raw.bin'' [0x81]" "''raw.bin''" "[0x81]"]
  by (simp add: file_at_def read_text_with_fallback_log_def encodings_def open_read_text_def
        text_decode_def utf8_sig_decode_def BOM_UTF8_def cp1252_table_def cp1252_high_def
        latin_1_decode_def)

text \<open>
  C10. The two functions treat line ends differently. \<^verbatim>\<open>read_file\<close> reads in text mode:
  a \<open>CR LF\<close> pair of the file is one \<open>LF\<close> in the string it returns.
  \<^verbatim>\<open>load_json_file\<close> decodes the bytes itself: the text its first attempt gives to the
  parser still holds the pair. The file here is ASCII, \<open>xs\<close>, then \<open>CR LF\<close>, then
  \<open>ys\<close>; for the bytes of \<^verbatim>\<open>a\r\nb\<close> the reader returns \<^verbatim>\<open>a\nb\<close>.
\<close>

theorem newlines_text_mode_and_raw:
  assumes "fs file_path = Inr (xs @ [0x0D, 0x0A] @ ys)"
    and "\<forall>b\<in>set (xs @ ys). b < 0x80"
  shows "read_text_with_fallback fs file_path =
           Inr (translate_newlines (map unat xs) @ 0x0A # translate_newlines (map unat ys)) \<and>
         read_file fs file_path =
           Inr (strip (translate_newlines (map unat xs) @ 0x0A #
                         translate_newlines (map unat ys))) \<and>
         (\<exists>rest r. load_json_file_log decoder fs file_path =
            (Attempt UTF_8 Strict (Some (map unat xs @ 0x0D # 0x0A # map unat ys)) # rest, r))"
proof -
  let ?data = "xs @ [0x0D, 0x0A] @ ys"
  let ?loop = "load_json_loop_log decoder ?data encodings"
  have ascii: "\<forall>b\<in>set ?data. b < 0x80" using assms(2) by auto
  have tr: "translate_newlines (map unat ?data) =
      translate_newlines (map unat xs) @ 0x0A # translate_newlines (map unat ys)"
    using translate_newlines_crlf [of "map unat xs" "map unat ys"] by simp
  have dec: "decode ?data UTF_8 Strict = Some (map unat xs @ 0x0D # 0x0A # map unat ys)"
    using utf8_decode_ascii [OF ascii, of Strict] by simp
  obtain rest where "fst (load_json_loop_log decoder ?data (UTF_8 # [UTF_8_SIG, CP1252, LATIN_1])) =
      Attempt UTF_8 Strict (decode ?data UTF_8 Strict) # rest"
    using load_json_loop_log_head [of decoder ?data UTF_8 "[UTF_8_SIG, CP1252, LATIN_1]"]
    by blast
  then have "fst ?loop = Attempt UTF_8 Strict (Some (map unat xs @ 0x0D # 0x0A # map unat ys)) # rest"
    using dec by (simp add: encodings_def)
  then have "\<exists>rest r. load_json_file_log decoder fs file_path =
      (Attempt UTF_8 Strict (Some (map unat xs @ 0x0D # 0x0A # map unat ys)) # rest, r)"
    using assms(1)
    by (cases "snd ?loop") (simp_all add: load_json_file_log_def open_read_binary_def)
  then show ?thesis
    using read_file_ascii [where fs = fs and file_path = file_path, OF assms(1) ascii] tr
    by simp
qed

theorem newlines_text_mode_and_raw_witness:
  "read_file (file_at ''crlf.txt'' [0x61, 0x0D, 0x0A, 0x62]) ''crlf.txt'' = Inr [0x61, 0x0A, 0x62] \<and>
   (\<exists>rest r. load_json_file_log digit_decoder (file_at ''crlf.txt'' [0x61, 0x0D, 0x0A, 0x62])
       ''crlf.txt'' = (Attempt UTF_8 Strict (Some [0x61, 0x0D, 0x0A, 0x62]) # rest, r))"
  using newlines_text_mode_and_raw
    [of "file_at ''crlf.txt'' [0x61, 0x0D, 0x0A, 0x62]" "''crlf.txt''" "[0x61]" "[0x62]"
        digit_decoder]
  by (simp add: file_at_def strip_def isspace_def)

end
